theory Spec2Isabelle
  imports Complex_Main
begin

section \<open>The traffic light detector node (ros/src/tl_detector/tl_detector.py)\<close>

text \<open>
  The node keeps the latest pose, the path (set once), the latest list of lights and the
  four variables of the debounce state machine. Each callback is a function from the
  detector to the detector; \<open>image_cb\<close> also returns what it did to the outside
  (classifier invocations, publications) and the exception it ended with, if any.

  Python floats (coordinates, clock readings) are read as reals. The two printed lines of
  \<open>image_cb\<close> and the attributes that nothing reads (\<open>lights_map\<close>,
  \<open>got_lights_map\<close>, \<open>prev_light_loc\<close>, \<open>bridge\<close>, \<open>listener\<close>) are
  left out.
\<close>

subsection \<open>Data\<close>

type_synonym position = "real \<times> real"
type_synonym quaternion = "real \<times> real \<times> real \<times> real"

text \<open>geometry\_msgs/Pose: \<open>position.x\<close>, \<open>position.y\<close> and the orientation.\<close>

record Pose =
  pose_position :: position
  pose_orientation :: quaternion

text \<open>The exceptions that the handlers can end with.\<close>

datatype error =
    TypeError           \<comment> \<open>unpacking \<open>None\<close> into \<open>light_wp, state\<close>\<close>
  | AttributeError      \<comment> \<open>\<open>self.pose.pose\<close> while \<open>self.pose\<close> is \<open>None\<close>\<close>
  | UnboundLocalError   \<comment> \<open>\<open>return ind\<close> with \<open>ind\<close> never assigned\<close>
  | ClassifierError     \<comment> \<open>whatever the image conversion or the classifier raises\<close>

text \<open>
  What a handler does to the outside world, in order. \<open>Classify b\<close> is one call of
  \<open>light_classifier.get_classification\<close>, made while \<open>processing_image\<close> had the
  value \<open>b\<close>; \<open>Publish n\<close> is one message \<open>Int32(n)\<close> on \<open>/traffic_waypoint\<close>.
\<close>

datatype event = Classify bool | Publish int

text \<open>
  What the file imports and does not define: the two constants of styx\_msgs/TrafficLight
  that it names, the yaw angle \<open>tf.transformations.euler_from_quaternion(q)[2]\<close>, and the
  classifier (\<open>bridge.imgmsg_to_cv2\<close> followed by \<open>get_classification\<close>), which
  returns a color id or raises. They are parameters of the model.
\<close>

record 'img env =
  UNKNOWN :: int
  RED :: int
  euler_yaw :: "quaternion \<Rightarrow> real"
  get_classification :: "'img \<Rightarrow> error + int"

text \<open>The parameter \<open>/traffic_light_config\<close>, as far as the node reads it.\<close>

record config =
  is_site :: bool
  stop_line_positions :: "position list"

record 'img TLDetector =
  pose :: "Pose option"
  waypoints :: "position list option"
  got_waypoints :: bool
  camera_image :: "'img option"
  has_image :: bool
  lights :: "position list"
  last_image_time :: real
  processing_image :: bool
  state :: int
  last_state :: int
  last_wp :: int
  state_count :: int
  config :: config
  site :: bool

definition STATE_COUNT_THRESHOLD :: int where
  "STATE_COUNT_THRESHOLD = 3"

text \<open>Set once in \<open>__init__\<close> and never written again.\<close>

definition max_look_ahead_distance :: real where
  "max_look_ahead_distance = 100"

definition min_look_ahead_distance :: real where
  "min_look_ahead_distance = 25"

text \<open>
  \<open>__init__\<close>, with the clock reading \<open>rospy.get_time()\<close> and the configuration as
  arguments. \<open>has_image\<close> is not assigned there; it is read only after \<open>image_cb\<close>
  has set it.
\<close>

definition TLDetector_init :: "'img env \<Rightarrow> real \<Rightarrow> config \<Rightarrow> 'img TLDetector" where
  "TLDetector_init env now cfg =
     \<lparr> pose = None, waypoints = None, got_waypoints = False,
       camera_image = None, has_image = False, lights = [],
       last_image_time = now, processing_image = False,
       state = UNKNOWN env, last_state = UNKNOWN env,
       last_wp = - 1, state_count = 0,
       config = cfg, site = is_site cfg \<rparr>"

subsection \<open>The stores\<close>

definition pose_cb :: "'img TLDetector \<Rightarrow> Pose \<Rightarrow> 'img TLDetector" where
  "pose_cb d msg = d\<lparr>pose := Some msg\<rparr>"

definition waypoints_cb :: "'img TLDetector \<Rightarrow> position list \<Rightarrow> 'img TLDetector" where
  "waypoints_cb d wps =
     (if \<not> got_waypoints d then d\<lparr>waypoints := Some wps, got_waypoints := True\<rparr> else d)"

definition traffic_cb :: "'img TLDetector \<Rightarrow> position list \<Rightarrow> 'img TLDetector" where
  "traffic_cb d ls = d\<lparr>lights := ls\<rparr>"

subsection \<open>get\_closest\_waypoint\<close>

text \<open>
  The \<open>for point in range(len(self.waypoints))\<close> loop. \<open>ind\<close> is \<open>None\<close> as long
  as the loop has not assigned it.
\<close>

fun closest_loop ::
  "position \<Rightarrow> position list \<Rightarrow> int \<Rightarrow> real \<Rightarrow> real \<Rightarrow> int option \<Rightarrow> int option" where
  "closest_loop p [] point diff_x diff_y ind = ind"
| "closest_loop p (w # ws) point diff_x diff_y ind =
     (let x = \<bar>fst p - fst w\<bar>;
          y = \<bar>snd p - snd w\<bar>
      in if x < diff_x \<and> y < diff_y
         then closest_loop p ws (point + 1) x y (Some point)
         else closest_loop p ws (point + 1) diff_x diff_y ind)"

text \<open>The branch \<open>self.waypoints != None\<close>: the loop, then \<open>return ind\<close>.\<close>

definition closest_index :: "position \<Rightarrow> position list \<Rightarrow> error + int" where
  "closest_index p ws =
     (case closest_loop p ws 0 1000000 1000000 None of
        None \<Rightarrow> Inl UnboundLocalError
      | Some ind \<Rightarrow> Inr ind)"

text \<open>The result \<open>Inr None\<close> is the bare \<open>return\<close> of the other branch.\<close>

definition get_closest_waypoint :: "'img TLDetector \<Rightarrow> position \<Rightarrow> error + int option" where
  "get_closest_waypoint d p =
     (case waypoints d of
        None \<Rightarrow> Inr None
      | Some ws \<Rightarrow>
          (case closest_index p ws of Inl e \<Rightarrow> Inl e | Inr ind \<Rightarrow> Inr (Some ind)))"

subsection \<open>get\_light\_state\<close>

text \<open>
  \<open>return False\<close> is the integer 0 in every comparison that follows. The
  \<open>try\<close> block of the source holds only \<open>pass\<close>; the call of the classifier is
  outside it.
\<close>

definition get_light_state :: "'img env \<Rightarrow> 'img TLDetector \<Rightarrow> event list \<times> (error + int)" where
  "get_light_state env d =
     (if \<not> has_image d then ([], Inr 0)
      else case camera_image d of
             None \<Rightarrow> ([], Inl AttributeError)
           | Some img \<Rightarrow> ([Classify (processing_image d)], get_classification env img))"

subsection \<open>process\_traffic\_lights\<close>

text \<open>
  The inner loop over \<open>config['stop_line_positions']\<close>; the last argument is
  \<open>light_stop_pose\<close>, which starts as \<open>Pose()\<close>, at the origin.
\<close>

fun stop_line_loop :: "position \<Rightarrow> position list \<Rightarrow> real \<Rightarrow> position \<Rightarrow> position" where
  "stop_line_loop light [] minimum_light_to_line_distance light_stop_pose = light_stop_pose"
| "stop_line_loop light (stop_line # rest) minimum_light_to_line_distance light_stop_pose =
     (let light_to_stop_line_distance =
            sqrt ((fst light - fst stop_line)\<^sup>2 + (snd light - snd stop_line)\<^sup>2)
      in if light_to_stop_line_distance < minimum_light_to_line_distance
         then stop_line_loop light rest light_to_stop_line_distance stop_line
         else stop_line_loop light rest minimum_light_to_line_distance light_stop_pose)"

text \<open>The condition under which the loop over the lights takes a light.\<close>

definition light_in_view :: "real \<Rightarrow> real \<Rightarrow> real \<Rightarrow> real \<Rightarrow> position \<Rightarrow> bool" where
  "light_in_view x y x_in_front y_in_front light =
     (let light_x = fst light;
          light_y = snd light;
          light_distance = sqrt ((light_x - x)\<^sup>2 + (light_y - y)\<^sup>2);
          light_orient = light_x - x + light_y - y;
          car_orient = x_in_front - x + y_in_front - y
      in light_distance < max_look_ahead_distance \<and>
         light_distance > min_look_ahead_distance \<and>
         car_orient * light_orient > 1)"

text \<open>
  What the loop does with the light it takes, up to the \<open>break\<close>: classify, find the
  stop line, find its waypoint. The path is stored at this point (\<open>ws\<close>), so
  \<open>get_closest_waypoint\<close> is its first branch, \<open>closest_index\<close>.
\<close>

definition light_found ::
  "'img env \<Rightarrow> 'img TLDetector \<Rightarrow> position list \<Rightarrow> position \<Rightarrow> event list \<times> (error + int \<times> int)" where
  "light_found env d ws light =
     (case get_light_state env d of
        (evs, Inl e) \<Rightarrow> (evs, Inl e)
      | (evs, Inr pred_state) \<Rightarrow>
          (case closest_index
                  (stop_line_loop light (stop_line_positions (config d)) 1000000 (0, 0)) ws of
             Inl e \<Rightarrow> (evs, Inl e)
           | Inr light_stop_wp \<Rightarrow> (evs, Inr (light_stop_wp, pred_state))))"

text \<open>
  The loop \<open>for light in self.lights\<close>. \<open>Inr None\<close> is the end of the loop with
  \<open>traffic_light_found\<close> still false.
\<close>

fun lights_loop ::
  "'img env \<Rightarrow> 'img TLDetector \<Rightarrow> position list \<Rightarrow> real \<Rightarrow> real \<Rightarrow> real \<Rightarrow> real \<Rightarrow>
   position list \<Rightarrow> event list \<times> (error + (int \<times> int) option)" where
  "lights_loop env d ws x y x_in_front y_in_front [] = ([], Inr None)"
| "lights_loop env d ws x y x_in_front y_in_front (light # rest) =
     (if light_in_view x y x_in_front y_in_front light
      then (case light_found env d ws light of
              (evs, Inl e) \<Rightarrow> (evs, Inl e)
            | (evs, Inr r) \<Rightarrow> (evs, Inr (Some r)))
      else lights_loop env d ws x y x_in_front y_in_front rest)"

text \<open>
  The result \<open>Inr None\<close> is the bare \<open>return\<close> taken when no path is stored;
  \<open>Inr (Some (light_wp, state))\<close> is a returned pair.
\<close>

definition process_traffic_lights ::
  "'img env \<Rightarrow> 'img TLDetector \<Rightarrow> event list \<times> (error + (int \<times> int) option)" where
  "process_traffic_lights env d =
     (case waypoints d of
        None \<Rightarrow> ([], Inr None)
      | Some ws \<Rightarrow>
          if \<not> site d then
            (case pose d of
               None \<Rightarrow> ([], Inl AttributeError)
             | Some ps \<Rightarrow>
                 (let theta = euler_yaw env (pose_orientation ps);
                      x = fst (pose_position ps);
                      x_in_front = x + 1 * cos theta;
                      y = snd (pose_position ps);
                      y_in_front = y + 1 * sin theta
                  in case lights_loop env d ws x y x_in_front y_in_front (lights d) of
                       (evs, Inl e) \<Rightarrow> (evs, Inl e)
                     | (evs, Inr None) \<Rightarrow> (evs, Inr (Some (- 1, 4)))
                     | (evs, Inr (Some r)) \<Rightarrow> (evs, Inr (Some r))))
          else
            (case closest_index (8, 16.2) ws of
               Inl e \<Rightarrow> ([], Inl e)
             | Inr light_stop_wp \<Rightarrow>
                 (case get_light_state env d of
                    (evs, Inl e) \<Rightarrow> (evs, Inl e)
                  | (evs, Inr pred_state) \<Rightarrow> (evs, Inr (Some (light_stop_wp, pred_state))))))"

subsection \<open>image\_cb\<close>

text \<open>
  The three-way \<open>if\<close> at the end of \<open>image_cb\<close> and the increment after it, on the
  pair that \<open>process_traffic_lights\<close> returned.
\<close>

definition debounce ::
  "'img env \<Rightarrow> 'img TLDetector \<Rightarrow> int \<Rightarrow> int \<Rightarrow> 'img TLDetector \<times> event list" where
  "debounce env d light_wp st =
     (if state d \<noteq> st then
        (d\<lparr>state := st, state_count := 0 + 1\<rparr>, [])
      else if state_count d \<ge> STATE_COUNT_THRESHOLD then
        (let d1 = (if state d \<noteq> last_state d then d\<lparr>last_state := state d\<rparr> else d);
             light_wp' = (if st = RED env then light_wp else - 1)
         in (d1\<lparr>last_wp := light_wp', state_count := state_count d1 + 1\<rparr>, [Publish light_wp']))
      else
        (d\<lparr>state_count := state_count d + 1\<rparr>, [Publish (last_wp d)]))"

text \<open>Which of the three branches a raw state takes.\<close>

definition branch :: "'img TLDetector \<Rightarrow> int \<Rightarrow> nat" where
  "branch d st =
     (if state d \<noteq> st then 1
      else if state_count d \<ge> STATE_COUNT_THRESHOLD then 2
      else 3)"

text \<open>The guard of \<open>image_cb\<close>.\<close>

definition accepts :: "'img TLDetector \<Rightarrow> real \<Rightarrow> bool" where
  "accepts d now_time = (processing_image d = False \<and> now_time > last_image_time d + 0.1)"

text \<open>
  \<open>image_cb\<close> with the reading of the clock as an argument. The result is the detector
  as the handler leaves it, what it did, and the exception it raised, if any. Unpacking
  the bare \<open>return\<close> of \<open>process_traffic_lights\<close> raises a \<open>TypeError\<close>.
\<close>

definition image_cb ::
  "'img env \<Rightarrow> 'img TLDetector \<Rightarrow> 'img \<Rightarrow> real \<Rightarrow> 'img TLDetector \<times> event list \<times> error option" where
  "image_cb env d msg now_time =
     (if accepts d now_time then
        (let d1 = d\<lparr>last_image_time := now_time, has_image := True, camera_image := Some msg\<rparr>
         in case process_traffic_lights env d1 of
              (evs, Inl e) \<Rightarrow> (d1, evs, Some e)
            | (evs, Inr None) \<Rightarrow> (d1, evs, Some TypeError)
            | (evs, Inr (Some (light_wp, st))) \<Rightarrow>
                (case debounce env d1 light_wp st of
                   (d2, pub) \<Rightarrow> (d2, evs @ pub, None)))
      else (d, [], None))"

subsection \<open>Sequences of messages\<close>

text \<open>
  The four subscriptions. An image message comes with the reading of the clock at its
  arrival.
\<close>

datatype 'img msg =
    PoseStamped Pose
  | Lane "position list"
  | TrafficLightArray "position list"
  | Image real 'img

fun dispatch ::
  "'img env \<Rightarrow> 'img TLDetector \<Rightarrow> 'img msg \<Rightarrow> 'img TLDetector \<times> event list \<times> error option" where
  "dispatch env d (PoseStamped p) = (pose_cb d p, [], None)"
| "dispatch env d (Lane wps) = (waypoints_cb d wps, [], None)"
| "dispatch env d (TrafficLightArray ls) = (traffic_cb d ls, [], None)"
| "dispatch env d (Image now_time img) = image_cb env d img now_time"

text \<open>
  The handlers run one after the other. An exception ends the handler that raised it;
  what that handler had written and done before stays, and the next message is handled
  from there.
\<close>

fun run :: "'img env \<Rightarrow> 'img TLDetector \<Rightarrow> 'img msg list \<Rightarrow> 'img TLDetector \<times> event list" where
  "run env d [] = (d, [])"
| "run env d (m # ms) =
     (case dispatch env d m of
        (d1, evs, r) \<Rightarrow> (case run env d1 ms of (d2, evs') \<Rightarrow> (d2, evs @ evs')))"

text \<open>The values sent on \<open>/traffic_waypoint\<close>, in order.\<close>

fun published :: "event list \<Rightarrow> int list" where
  "published [] = []"
| "published (Publish n # es) = n # published es"
| "published (Classify b # es) = published es"

text \<open>The last value sent, or the initial \<open>last_wp\<close> when nothing has been sent.\<close>

definition last_published :: "event list \<Rightarrow> int" where
  "last_published es = (if published es = [] then - 1 else last (published es))"

fun classifications :: "event list \<Rightarrow> bool list" where
  "classifications [] = []"
| "classifications (Classify b # es) = b # classifications es"
| "classifications (Publish n # es) = classifications es"

text \<open>
  The state machine alone, on a sequence of accepted frames given by the pairs
  \<open>(light_wp, state)\<close> that \<open>process_traffic_lights\<close> returned for them: for each
  frame the branch it took, what it published, and the detector after it.
\<close>

fun feed ::
  "'img env \<Rightarrow> 'img TLDetector \<Rightarrow> (int \<times> int) list \<Rightarrow> (nat \<times> event list \<times> 'img TLDetector) list" where
  "feed env d [] = []"
| "feed env d ((light_wp, st) # fs) =
     (case debounce env d light_wp st of
        (d', pub) \<Rightarrow> (branch d st, pub, d') # feed env d' fs)"

definition after :: "'img env \<Rightarrow> 'img TLDetector \<Rightarrow> (int \<times> int) list \<Rightarrow> 'img TLDetector" where
  "after env d fs = foldl (\<lambda>d' (light_wp, st). fst (debounce env d' light_wp st)) d fs"

subsection \<open>A concrete setting\<close>

text \<open>
  The color ids of styx\_msgs/TrafficLight, a vehicle heading along the x axis, and frames
  that are integers: the classifier answers a frame \<open>n \<ge> 0\<close> with the color \<open>n\<close>
  and raises on a negative one.
\<close>

definition sim_env :: "int env" where
  "sim_env = \<lparr> UNKNOWN = 4, RED = 0, euler_yaw = (\<lambda>q. 0),
               get_classification = (\<lambda>img. if img < 0 then Inl ClassifierError else Inr img) \<rparr>"

definition sim_config :: config where
  "sim_config = \<lparr> is_site = False, stop_line_positions = [(60, 0)] \<rparr>"

definition site_config :: config where
  "site_config = \<lparr> is_site = True, stop_line_positions = [] \<rparr>"

definition origin_pose :: Pose where
  "origin_pose = \<lparr> pose_position = (0, 0), pose_orientation = (0, 0, 0, 1) \<rparr>"

text \<open>A second classifier, for frames that are 0 only.\<close>

definition sim_env2 :: "int env" where
  "sim_env2 = \<lparr> UNKNOWN = 4, RED = 0, euler_yaw = (\<lambda>q. 0),
               get_classification = (\<lambda>img. if img = 0 then Inr 0 else Inl ClassifierError) \<rparr>"

text \<open>
  A detector in non-site mode at the origin, with the path \<open>[(0, 0)]\<close>, the
  lights \<open>ls\<close> and a frame accepted at clock 1.
\<close>

definition sim_detector :: "position list \<Rightarrow> int TLDetector" where
  "sim_detector ls =
     traffic_cb (pose_cb (waypoints_cb (TLDetector_init sim_env 0 sim_config) [(0, 0)])
                   origin_pose) ls
     \<lparr>last_image_time := 1, has_image := True, camera_image := Some 0\<rparr>"

subsection \<open>Invariants of the state machine\<close>

text \<open>A non-negative \<open>last_wp\<close> goes with a confirmed red.\<close>

definition red_or_sentinel :: "'img env \<Rightarrow> 'img TLDetector \<Rightarrow> bool" where
  "red_or_sentinel env d = (last_state d = RED env \<or> last_wp d = - 1)"

text \<open>The counter never exceeds the number of trailing frames whose raw state is the
  current one.\<close>

definition count_history :: "'img TLDetector \<Rightarrow> (int \<times> int) list \<Rightarrow> bool" where
  "count_history d fs =
     (0 \<le> state_count d \<and> state_count d \<le> int (length fs) \<and>
      (\<forall>k < length fs. int k < state_count d \<longrightarrow> snd (fs ! (length fs - 1 - k)) = state d))"

text \<open>The frames on which \<open>process_traffic_lights\<close> reaches \<open>get_light_state\<close>.\<close>

definition light_selected :: "'img env \<Rightarrow> 'img TLDetector \<Rightarrow> bool" where
  "light_selected env d =
     (case waypoints d of
        None \<Rightarrow> False
      | Some ws \<Rightarrow>
          if \<not> site d then
            (case pose d of
               None \<Rightarrow> False
             | Some ps \<Rightarrow>
                 find (light_in_view (fst (pose_position ps)) (snd (pose_position ps))
                         (fst (pose_position ps) + 1 * cos (euler_yaw env (pose_orientation ps)))
                         (snd (pose_position ps) + 1 * sin (euler_yaw env (pose_orientation ps))))
                      (lights d) \<noteq> None)
          else (case closest_index (8, 16.2) ws of Inl e \<Rightarrow> False | Inr ind \<Rightarrow> True))"

section \<open>Properties\<close>

subsection \<open>Missing inputs\<close>

text \<open>An accepted frame with no path stored, or with a path and no pose in non-site mode.\<close>

lemma image_cb_no_path:
  "accepts d now_time \<Longrightarrow> waypoints d = None \<Longrightarrow>
   snd (image_cb env d msg now_time) = ([], Some TypeError)"
  by (simp add: image_cb_def process_traffic_lights_def)

lemma image_cb_no_pose:
  "accepts d now_time \<Longrightarrow> waypoints d = Some ws \<Longrightarrow> \<not> site d \<Longrightarrow> pose d = None \<Longrightarrow>
   snd (image_cb env d msg now_time) = ([], Some AttributeError)"
  by (simp add: image_cb_def process_traffic_lights_def)

text \<open>
  C1. The claim: on an accepted frame with no path stored, or in non-site mode with no
  pose received, the pipeline reports "no light found", the pair \<open>(-1, 4)\<close>, and does
  not raise. The code does not: with no path \<open>process_traffic_lights\<close> returns
  \<open>None\<close>, and unpacking it in \<open>image_cb\<close> raises a \<open>TypeError\<close>; with a path
  and no pose, in non-site mode, reading \<open>self.pose.pose\<close> raises an
  \<open>AttributeError\<close>. Nothing is published in either case. The two frames below
  arrive at clock 1 at a detector constructed at clock 0.
\<close>

theorem image_cb_missing_input_raises:
  "snd (image_cb sim_env (TLDetector_init sim_env 0 sim_config) 2 1) = ([], Some TypeError) \<and>
   snd (image_cb sim_env (waypoints_cb (TLDetector_init sim_env 0 sim_config) [(0, 0)]) 2 1)
     = ([], Some AttributeError)"
  by (simp add: image_cb_def accepts_def TLDetector_init_def sim_config_def
      process_traffic_lights_def waypoints_cb_def)

subsection \<open>Nearest waypoint\<close>

lemma closest_loop_range:
  "closest_loop p ws point diff_x diff_y ind = Some i \<Longrightarrow>
   ind = Some i \<or> (point \<le> i \<and> i < point + int (length ws))"
proof (induction ws arbitrary: point diff_x diff_y ind)
  case Nil
  then show ?case by simp
next
  case (Cons w ws)
  show ?case
  proof (cases "\<bar>fst p - fst w\<bar> < diff_x \<and> \<bar>snd p - snd w\<bar> < diff_y")
    case True
    then have "closest_loop p ws (point + 1) \<bar>fst p - fst w\<bar> \<bar>snd p - snd w\<bar> (Some point)
        = Some i"
      using Cons.prems by (simp add: Let_def)
    from Cons.IH [OF this] show ?thesis by auto
  next
    case False
    then have "closest_loop p ws (point + 1) diff_x diff_y ind = Some i"
      using Cons.prems by (auto simp add: Let_def)
    from Cons.IH [OF this] show ?thesis by auto
  qed
qed

lemma closest_index_in_range:
  "closest_index p ws = Inr i \<Longrightarrow> 0 \<le> i \<and> i < int (length ws)"
  using closest_loop_range [of p ws 0 1000000 1000000 None i]
  by (simp add: closest_index_def split: option.splits)

lemma closest_loop_assigned:
  "closest_loop p ws point diff_x diff_y (Some j) \<noteq> None"
  by (induction ws arbitrary: point diff_x diff_y j) (simp_all add: Let_def)

lemma closest_loop_near:
  "\<exists>w \<in> set ws. \<bar>fst p - fst w\<bar> < diff_x \<and> \<bar>snd p - snd w\<bar> < diff_y \<Longrightarrow>
   closest_loop p ws point diff_x diff_y None \<noteq> None"
proof (induction ws arbitrary: point)
  case Nil
  then show ?case by simp
next
  case (Cons w ws)
  show ?case
  proof (cases "\<bar>fst p - fst w\<bar> < diff_x \<and> \<bar>snd p - snd w\<bar> < diff_y")
    case True
    then show ?thesis by (simp add: Let_def closest_loop_assigned)
  next
    case False
    then have "\<exists>w \<in> set ws. \<bar>fst p - fst w\<bar> < diff_x \<and> \<bar>snd p - snd w\<bar> < diff_y"
      using Cons.prems by auto
    from Cons.IH [OF this, of "point + 1"] False show ?thesis by (auto simp add: Let_def)
  qed
qed

lemma closest_loop_far:
  "\<forall>w \<in> set ws. \<not> (\<bar>fst p - fst w\<bar> < diff_x \<and> \<bar>snd p - snd w\<bar> < diff_y) \<Longrightarrow>
   closest_loop p ws point diff_x diff_y ind = ind"
  by (induction ws arbitrary: point) (auto simp add: Let_def)

text \<open>
  \<open>get_closest_waypoint\<close> returns an index, and then one in range, exactly when some
  waypoint is closer than 1e6 to the point on both axes; otherwise \<open>ind\<close> is unbound.
\<close>

lemma closest_index_returns_iff:
  "(\<exists>i. closest_index p ws = Inr i) \<longleftrightarrow>
   (\<exists>w \<in> set ws. \<bar>fst p - fst w\<bar> < 1000000 \<and> \<bar>snd p - snd w\<bar> < 1000000)"
proof
  assume "\<exists>w \<in> set ws. \<bar>fst p - fst w\<bar> < 1000000 \<and> \<bar>snd p - snd w\<bar> < 1000000"
  from closest_loop_near [OF this, of 0] show "\<exists>i. closest_index p ws = Inr i"
    by (auto simp add: closest_index_def split: option.splits)
next
  assume a: "\<exists>i. closest_index p ws = Inr i"
  show "\<exists>w \<in> set ws. \<bar>fst p - fst w\<bar> < 1000000 \<and> \<bar>snd p - snd w\<bar> < 1000000"
  proof (rule ccontr)
    assume "\<not> ?thesis"
    then have "closest_loop p ws 0 1000000 1000000 None = None"
      using closest_loop_far [of ws p 1000000 1000000 0 None] by blast
    then show False using a by (simp add: closest_index_def)
  qed
qed

lemma get_closest_waypoint_stored:
  "waypoints d = Some ws \<Longrightarrow>
   get_closest_waypoint d p =
     (case closest_index p ws of Inl e \<Rightarrow> Inl e | Inr ind \<Rightarrow> Inr (Some ind))"
  by (simp add: get_closest_waypoint_def)

lemma get_closest_waypoint_no_path:
  "waypoints d = None \<Longrightarrow> get_closest_waypoint d p = Inr None"
  by (simp add: get_closest_waypoint_def)

text \<open>
  C5. The claim: for every stored path with at least one waypoint and every query point,
  \<open>get_closest_waypoint\<close> returns an index in range. The code does not: \<open>ind\<close> is
  assigned only when a waypoint is closer than 1e6 on both axes, so for the path
  \<open>[(0, 0)]\<close> and the query point \<open>(2000000, 0)\<close> the loop ends with \<open>ind\<close>
  unassigned and \<open>return ind\<close> raises an \<open>UnboundLocalError\<close>.
\<close>

theorem get_closest_waypoint_far_point_raises:
  "get_closest_waypoint (waypoints_cb (TLDetector_init sim_env 0 sim_config) [(0, 0)])
     (2000000, 0) = Inl UnboundLocalError"
  by (simp add: get_closest_waypoint_def closest_index_def TLDetector_init_def
      waypoints_cb_def)

subsection \<open>A classifier that raises\<close>

text \<open>Site mode, a waypoint found for the stop line, and a classifier that raises.\<close>

lemma image_cb_classifier_raises:
  "accepts d now_time \<Longrightarrow> site d \<Longrightarrow> waypoints d = Some ws \<Longrightarrow>
   closest_index (8, 16.2) ws = Inr ind \<Longrightarrow> get_classification env msg = Inl e \<Longrightarrow>
   snd (image_cb env d msg now_time) = ([Classify False], Some e)"
  by (simp add: image_cb_def process_traffic_lights_def get_light_state_def accepts_def)

text \<open>
  C7. The claim: when the classifier raises on an accepted frame, the adapter hands the
  "unknown" color to the state machine instead of propagating the exception. The code
  does not: the \<open>try\<close> around the call in \<open>image_cb\<close> is commented out and the
  one in \<open>get_light_state\<close> ends before the call, so the exception leaves
  \<open>image_cb\<close>, the state machine is not run and nothing is published. Below, site
  mode, the path \<open>[(0, 0)]\<close>, and a frame (\<open>-1\<close>) on which the classifier raises.
\<close>

theorem image_cb_classifier_exception_propagates:
  "snd (image_cb sim_env (waypoints_cb (TLDetector_init sim_env 0 site_config) [(0, 0)])
          (- 1) 1) = ([Classify False], Some ClassifierError)"
  by (simp add: image_cb_def accepts_def TLDetector_init_def site_config_def
      process_traffic_lights_def waypoints_cb_def closest_index_def get_light_state_def
      sim_env_def)

subsection \<open>The state machine on a sequence of frames\<close>

lemma feed_Cons:
  "feed env d ((light_wp, st) # fs) =
     (branch d st, snd (debounce env d light_wp st), fst (debounce env d light_wp st))
       # feed env (fst (debounce env d light_wp st)) fs"
  by (simp add: case_prod_unfold)

lemma debounce_count:
  "state_count (fst (debounce env d light_wp st))
     = (if state d \<noteq> st then 0 else state_count d) + 1"
  by (simp add: debounce_def Let_def)

lemma debounce_state: "state (fst (debounce env d light_wp st)) = st"
  by (simp add: debounce_def Let_def)

lemma feed_stable_red:
  "state d = RED env \<Longrightarrow> 3 \<le> state_count d \<Longrightarrow>
   map (\<lambda>(b, pub, d'). (b, pub)) (feed env d (replicate m (wp, RED env)))
     = replicate m (2, [Publish wp])"
proof (induction m arbitrary: d)
  case 0
  then show ?case by simp
next
  case (Suc m)
  let ?d' = "fst (debounce env d wp (RED env))"
  have step: "snd (debounce env d wp (RED env)) = [Publish wp]" "branch d (RED env) = 2"
    using Suc.prems by (simp_all add: debounce_def branch_def STATE_COUNT_THRESHOLD_def Let_def)
  have "state ?d' = RED env" "3 \<le> state_count ?d'"
    using Suc.prems by (simp_all add: debounce_state debounce_count)
  then have "map (\<lambda>(b, pub, d'). (b, pub)) (feed env ?d' (replicate m (wp, RED env)))
     = replicate m (2, [Publish wp])"
    by (rule Suc.IH)
  then show ?case using step by (simp add: feed_Cons del: feed.simps)
qed

text \<open>
  C3. From the initial detector, on the raw sequence RED, RED, RED, RED (and any number
  of further RED frames) with waypoint 42, where RED is not the initial state UNKNOWN:
  frame 1 takes branch 1 and publishes nothing, frames 2 and 3 take branch 3 and
  republish the previous value \<open>-1\<close>, and every frame from the fourth on takes branch 2
  and publishes 42. On every accepted frame the counter after the frame is one more than
  its value after the branch (0 after the reset of branch 1, unchanged otherwise).
\<close>

theorem four_red_frames:
  assumes "RED env \<noteq> UNKNOWN env"
  shows "map (\<lambda>(b, pub, d'). (b, pub))
           (feed env (TLDetector_init env now cfg)
              (replicate 3 (42, RED env) @ replicate (Suc n) (42, RED env)))
         = [(1, []), (3, [Publish (- 1)]), (3, [Publish (- 1)])]
             @ replicate (Suc n) (2, [Publish 42])
       \<and> (\<forall>d light_wp st.
            state_count (fst (debounce env (d :: 'a TLDetector) light_wp st))
              = (if state d \<noteq> st then 0 else state_count d) + 1)"
proof -
  let ?r = "RED env"
  let ?d0 = "TLDetector_init env now cfg :: 'a TLDetector"
  let ?d1 = "fst (debounce env ?d0 42 ?r)"
  let ?d2 = "fst (debounce env ?d1 42 ?r)"
  let ?d3 = "fst (debounce env ?d2 42 ?r)"
  have s1: "snd (debounce env ?d0 42 ?r) = []" "branch ?d0 ?r = 1"
    "state ?d1 = ?r" "state_count ?d1 = 1" "last_wp ?d1 = - 1"
    using assms by (simp_all add: debounce_def branch_def TLDetector_init_def)
  have s2: "snd (debounce env ?d1 42 ?r) = [Publish (- 1)]" "branch ?d1 ?r = 3"
    "state ?d2 = ?r" "state_count ?d2 = 2" "last_wp ?d2 = - 1"
    using s1(3-5) by (simp_all add: debounce_def branch_def STATE_COUNT_THRESHOLD_def)
  have s3: "snd (debounce env ?d2 42 ?r) = [Publish (- 1)]" "branch ?d2 ?r = 3"
    "state ?d3 = ?r" "state_count ?d3 = 3" "last_wp ?d3 = - 1"
    using s2(3-5) by (simp_all add: debounce_def branch_def STATE_COUNT_THRESHOLD_def)
  have rest: "map (\<lambda>(b, pub, d'). (b, pub)) (feed env ?d3 (replicate (Suc n) (42, ?r)))
     = replicate (Suc n) (2, [Publish 42])"
    by (rule feed_stable_red) (simp_all add: s3)
  have three: "replicate 3 (42, ?r) @ fs = (42, ?r) # (42, ?r) # (42, ?r) # fs" for fs
    by (simp add: numeral_3_eq_3)
  have "map (\<lambda>(b, pub, d'). (b, pub))
           (feed env ?d0 (replicate 3 (42, ?r) @ replicate (Suc n) (42, ?r)))
         = [(1, []), (3, [Publish (- 1)]), (3, [Publish (- 1)])]
             @ replicate (Suc n) (2, [Publish 42])"
    unfolding three feed_Cons using rest by (simp add: s1(1,2) s2(1,2) s3(1,2) del: replicate_Suc replicate.simps feed.simps)
  then show ?thesis by (simp add: debounce_count)
qed

text \<open>Five RED frames, with the color ids of the simulator.\<close>

theorem four_red_frames_witness:
  "RED sim_env \<noteq> UNKNOWN sim_env \<and>
   map (\<lambda>(b, pub, d'). (b, pub))
     (feed sim_env (TLDetector_init sim_env 0 sim_config)
        [(42, 0), (42, 0), (42, 0), (42, 0), (42, 0)])
     = [(1, []), (3, [Publish (- 1)]), (3, [Publish (- 1)]), (2, [Publish 42]), (2, [Publish 42])]"
proof -
  have h: "RED sim_env \<noteq> UNKNOWN sim_env" by (simp add: sim_env_def)
  have r: "RED sim_env = 0" by (simp add: sim_env_def)
  have l: "replicate 3 (42, 0) @ replicate (Suc (Suc 0)) (42, 0) = [(42, 0), (42, 0), (42, 0), (42, 0), (42::int, 0::int)]"
    by (simp add: numeral_3_eq_3)
  show ?thesis
    using h four_red_frames [OF h, of 0 sim_config "Suc 0"]
    unfolding r l by simp
qed

lemma debounce_quiet:
  "branch d st \<noteq> 2 \<Longrightarrow> last_wp (fst (debounce env d light_wp st)) = last_wp d \<and>
     ((branch d st = 1 \<and> snd (debounce env d light_wp st) = []) \<or>
      (branch d st = 3 \<and> snd (debounce env d light_wp st) = [Publish (last_wp d)]))"
  by (auto simp add: debounce_def branch_def split: if_splits)

lemma feed_sentinel:
  "last_wp d = - 1 \<Longrightarrow>
   \<forall>(b, pub, d') \<in> set (takeWhile (\<lambda>(b, pub, d'). b \<noteq> 2) (feed env d fs)).
     (b = 1 \<and> pub = []) \<or> (b = 3 \<and> pub = [Publish (- 1)])"
proof (induction fs arbitrary: d)
  case Nil
  then show ?case by simp
next
  case (Cons f fs)
  obtain light_wp st where f: "f = (light_wp, st)" by (cases f)
  show ?case
  proof (cases "branch d st = 2")
    case True
    then show ?thesis by (simp add: f feed_Cons del: feed.simps)
  next
    case False
    from debounce_quiet [OF False, of env light_wp] Cons.prems
    have q: "last_wp (fst (debounce env d light_wp st)) = - 1"
      "(branch d st = 1 \<and> snd (debounce env d light_wp st) = []) \<or>
       (branch d st = 3 \<and> snd (debounce env d light_wp st) = [Publish (- 1)])"
      by simp_all
    from Cons.IH [OF q(1)] q(2) False show ?thesis
      by (simp add: f feed_Cons del: feed.simps)
  qed
qed

text \<open>
  C10. From the initial detector, on any sequence of accepted frames, every frame before
  the first one that takes branch 2 either takes branch 1 and publishes nothing, or takes
  branch 3 and publishes \<open>-1\<close>, the initial \<open>last_wp\<close>.
\<close>

theorem sentinel_until_first_confirmation:
  "\<forall>(b, pub, d') \<in> set (takeWhile (\<lambda>(b, pub, d'). b \<noteq> 2)
                            (feed env (TLDetector_init env now cfg) fs)).
     (b = 1 \<and> pub = []) \<or> (b = 3 \<and> pub = [Publish (- 1)])"
  by (rule feed_sentinel) (simp add: TLDetector_init_def)

text \<open>GREEN, then RED five times: the fifth frame is the first to take branch 2.\<close>

theorem sentinel_until_first_confirmation_witness:
  "map (\<lambda>(b, pub, d'). (b, pub))
     (takeWhile (\<lambda>(b, pub, d'). b \<noteq> 2)
        (feed sim_env (TLDetector_init sim_env 0 sim_config)
           [(7, 2), (7, 0), (7, 0), (7, 0), (7, 0), (7, 0)]))
   = [(1, []), (1, []), (3, [Publish (- 1)]), (3, [Publish (- 1)])]"
  using sentinel_until_first_confirmation [of sim_env 0 sim_config "[(7, 2), (7, 0), (7, 0), (7, 0), (7, 0), (7, 0)]"]
  by (simp add: feed_Cons debounce_def branch_def TLDetector_init_def sim_env_def STATE_COUNT_THRESHOLD_def del: feed.simps)


lemma get_light_state_published: "published (fst (get_light_state env d)) = []"
  by (simp add: get_light_state_def split: option.split)

lemma light_found_published: "published (fst (light_found env d ws light)) = []"
  using get_light_state_published [of env d]
  by (cases "get_light_state env d") (simp add: light_found_def split: sum.split)

lemma lights_loop_published:
  "published (fst (lights_loop env d ws x y x_in_front y_in_front ls)) = []"
proof (induction ls)
  case Nil
  then show ?case by simp
next
  case (Cons light ls)
  show ?case
    using light_found_published [of env d ws light] Cons.IH
    by (cases "light_found env d ws light") (simp split: sum.split)
qed

lemma process_traffic_lights_published:
  "published (fst (process_traffic_lights env d)) = []"
proof (cases "waypoints d")
  case None
  then show ?thesis by (simp add: process_traffic_lights_def)
next
  case (Some ws)
  show ?thesis
  proof (cases "site d")
    case True
    then show ?thesis
      using Some get_light_state_published [of env d]
      by (cases "get_light_state env d")
         (simp add: process_traffic_lights_def split: sum.split)
  next
    case False
    show ?thesis
    proof (cases "pose d")
      case None
      then show ?thesis using Some False by (simp add: process_traffic_lights_def)
    next
      case (Some ps)
      let ?x = "fst (pose_position ps)"
      let ?y = "snd (pose_position ps)"
      let ?t = "euler_yaw env (pose_orientation ps)"
      let ?l = "lights_loop env d ws ?x ?y (?x + 1 * cos ?t) (?y + 1 * sin ?t) (lights d)"
      have "published (fst ?l) = []" by (rule lights_loop_published)
      then show ?thesis
        using Some False \<open>waypoints d = Some ws\<close>
        by (cases ?l) (simp add: process_traffic_lights_def Let_def split: sum.split option.split)
    qed
  qed
qed

lemma published_append: "published (es @ es') = published es @ published es'"
  by (induction es rule: published.induct) simp_all

text \<open>What one run of \<open>image_cb\<close> can do to the variables of the state machine.\<close>

lemma image_cb_cases:
  assumes "image_cb env d msg now_time = (d', evs, r)"
  shows "(published evs = [] \<and> state d' = state d \<and> state_count d' = state_count d \<and>
          last_state d' = last_state d \<and> last_wp d' = last_wp d) \<or>
         (\<exists>d1 light_wp st. state d1 = state d \<and> state_count d1 = state_count d \<and>
            last_state d1 = last_state d \<and> last_wp d1 = last_wp d \<and>
            d' = fst (debounce env d1 light_wp st) \<and>
            published evs = published (snd (debounce env d1 light_wp st)))"
proof (cases "accepts d now_time")
  case False
  then show ?thesis using assms by (auto simp add: image_cb_def)
next
  case True
  let ?d1 = "d\<lparr>last_image_time := now_time, has_image := True, camera_image := Some msg\<rparr>"
  obtain evs1 res where p: "process_traffic_lights env ?d1 = (evs1, res)"
    by (cases "process_traffic_lights env ?d1")
  have q: "published evs1 = []"
    using process_traffic_lights_published [of env ?d1] p by simp
  show ?thesis
  proof (cases res)
    case (Inl e)
    then show ?thesis using assms True p q by (auto simp add: image_cb_def)
  next
    case (Inr ro)
    show ?thesis
    proof (cases ro)
      case None
      then show ?thesis using assms True p q Inr by (auto simp add: image_cb_def)
    next
      case (Some pr)
      obtain light_wp st where pr: "pr = (light_wp, st)" by (cases pr)
      have "d' = fst (debounce env ?d1 light_wp st)"
           "evs = evs1 @ snd (debounce env ?d1 light_wp st)"
        using assms True p Inr Some pr
        by (auto simp add: image_cb_def case_prod_unfold Let_def)
      then have "state ?d1 = state d \<and> state_count ?d1 = state_count d \<and>
            last_state ?d1 = last_state d \<and> last_wp ?d1 = last_wp d \<and>
            d' = fst (debounce env ?d1 light_wp st) \<and>
            published evs = published (snd (debounce env ?d1 light_wp st))"
        using q by (simp add: published_append)
      then show ?thesis by blast
    qed
  qed
qed

lemma dispatch_cases:
  assumes "dispatch env d m = (d', evs, r)"
  shows "(published evs = [] \<and> state d' = state d \<and> state_count d' = state_count d \<and>
          last_state d' = last_state d \<and> last_wp d' = last_wp d) \<or>
         (\<exists>d1 light_wp st. state d1 = state d \<and> state_count d1 = state_count d \<and>
            last_state d1 = last_state d \<and> last_wp d1 = last_wp d \<and>
            d' = fst (debounce env d1 light_wp st) \<and>
            published evs = published (snd (debounce env d1 light_wp st)))"
proof (cases m)
  case (Image now_time img)
  then show ?thesis using assms image_cb_cases [of env d img now_time d' evs r] by simp
qed (use assms in \<open>auto simp add: pose_cb_def waypoints_cb_def traffic_cb_def\<close>)

lemma debounce_red_or_sentinel:
  "red_or_sentinel env d \<Longrightarrow> red_or_sentinel env (fst (debounce env d light_wp st))"
  by (auto simp add: red_or_sentinel_def debounce_def Let_def)

lemma debounce_published_red:
  "red_or_sentinel env d \<Longrightarrow> p \<in> set (published (snd (debounce env d light_wp st))) \<Longrightarrow>
   last_state (fst (debounce env d light_wp st)) = RED env \<or> p = - 1"
  by (auto simp add: red_or_sentinel_def debounce_def Let_def split: if_splits)

lemma dispatch_red_or_sentinel:
  assumes "red_or_sentinel env d" "dispatch env d m = (d', evs, r)"
  shows "red_or_sentinel env d'"
  using dispatch_cases [OF assms(2)]
proof (elim disjE exE conjE)
  assume "last_state d' = last_state d" "last_wp d' = last_wp d"
  then show ?thesis using assms(1) by (simp add: red_or_sentinel_def)
next
  fix d1 light_wp st
  assume a: "last_state d1 = last_state d" "last_wp d1 = last_wp d"
    "d' = fst (debounce env d1 light_wp st)"
  have "red_or_sentinel env d1" using assms(1) a(1,2) by (simp add: red_or_sentinel_def)
  then show ?thesis unfolding a(3) by (rule debounce_red_or_sentinel)
qed

lemma run_red_or_sentinel:
  "red_or_sentinel env d \<Longrightarrow> red_or_sentinel env (fst (run env d ms))"
proof (induction ms arbitrary: d)
  case Nil
  then show ?case by simp
next
  case (Cons m ms)
  obtain d1 evs1 r where s: "dispatch env d m = (d1, evs1, r)"
    by (cases "dispatch env d m")
  have "red_or_sentinel env d1" using Cons.prems s by (rule dispatch_red_or_sentinel)
  then have "red_or_sentinel env (fst (run env d1 ms))" by (rule Cons.IH)
  then show ?case using s by (simp add: case_prod_unfold)
qed

text \<open>
  C4. In every state that a sequence of messages leads to from the initial detector, a
  value that the next message makes the node publish is non-negative only if the
  confirmed color \<open>last_state\<close> is then RED; when it is not RED, the value is \<open>-1\<close>.
\<close>

theorem published_nonnegative_only_while_red:
  assumes "run env (TLDetector_init env now cfg) ms = (d, evs0)"
      and "dispatch env d m = (d', evs, r)"
      and "p \<in> set (published evs)"
  shows "(0 \<le> p \<longrightarrow> last_state d' = RED env) \<and> (last_state d' \<noteq> RED env \<longrightarrow> p = - 1)"
proof -
  have "red_or_sentinel env (TLDetector_init env now cfg)"
    by (simp add: red_or_sentinel_def TLDetector_init_def)
  then have "red_or_sentinel env (fst (run env (TLDetector_init env now cfg) ms))"
    by (rule run_red_or_sentinel)
  then have inv: "red_or_sentinel env d" using assms(1) by simp
  from dispatch_cases [OF assms(2)] assms(3)
  obtain d1 light_wp st where d1: "last_state d1 = last_state d" "last_wp d1 = last_wp d"
    "d' = fst (debounce env d1 light_wp st)"
    "published evs = published (snd (debounce env d1 light_wp st))"
    by auto
  have "red_or_sentinel env d1" using inv d1(1,2) by (simp add: red_or_sentinel_def)
  then have "last_state d' = RED env \<or> p = - 1"
    using debounce_published_red [of env d1 p light_wp st] assms(3) d1(3,4) by simp
  then show ?thesis by auto
qed

text \<open>
  Site mode, the path \<open>[(0, 0)]\<close>, four RED frames: the fifth publishes waypoint 0.
\<close>

theorem published_nonnegative_only_while_red_witness:
  "0 \<in> set (published (fst (snd (dispatch sim_env
       (fst (run sim_env (TLDetector_init sim_env 0 site_config)
               [Lane [(0, 0)], Image 1 0, Image 2 0, Image 3 0, Image 4 0]))
       (Image 5 0))))) \<and>
   last_state (fst (dispatch sim_env
       (fst (run sim_env (TLDetector_init sim_env 0 site_config)
               [Lane [(0, 0)], Image 1 0, Image 2 0, Image 3 0, Image 4 0]))
       (Image 5 0))) = RED sim_env"
proof -
  let ?ms = "[Lane [(0, 0)], Image 1 0, Image 2 0, Image 3 0, Image 4 0] :: int msg list"
  let ?r = "run sim_env (TLDetector_init sim_env 0 site_config) ?ms"
  let ?s = "dispatch sim_env (fst ?r) (Image 5 0)"
  have p: "0 \<in> set (published (fst (snd ?s)))"
    by (simp add: image_cb_def accepts_def TLDetector_init_def site_config_def
      process_traffic_lights_def waypoints_cb_def closest_index_def get_light_state_def
      sim_env_def debounce_def STATE_COUNT_THRESHOLD_def)
  have "run sim_env (TLDetector_init sim_env 0 site_config) ?ms = (fst ?r, snd ?r)"
    "dispatch sim_env (fst ?r) (Image 5 0) = (fst ?s, fst (snd ?s), snd (snd ?s))"
    by simp_all
  from published_nonnegative_only_while_red [OF this p] p show ?thesis by simp
qed

lemma after_snoc:
  "after env d (fs @ [(light_wp, st)]) = fst (debounce env (after env d fs) light_wp st)"
  by (simp add: after_def)

lemma feed_snoc:
  "feed env d (fs @ [(light_wp, st)]) =
     feed env d fs @ [(branch (after env d fs) st,
                       snd (debounce env (after env d fs) light_wp st),
                       fst (debounce env (after env d fs) light_wp st))]"
proof (induction fs arbitrary: d)
  case Nil
  then show ?case by (simp add: after_def case_prod_unfold)
next
  case (Cons f fs)
  obtain w s where f: "f = (w, s)" by (cases f)
  have "after env d (f # fs) = after env (fst (debounce env d w s)) fs"
    by (simp add: after_def f)
  then show ?case using Cons.IH [of "fst (debounce env d w s)"]
    by (simp add: f feed_Cons del: feed.simps)
qed

lemma length_feed: "length (feed env d fs) = length fs"
  by (induction fs arbitrary: d) (auto simp add: case_prod_unfold)

lemma take_feed: "take i (feed env d fs) = feed env d (take i fs)"
proof (induction fs arbitrary: d i)
  case Nil
  then show ?case by simp
next
  case (Cons f fs)
  obtain w s where f: "f = (w, s)" by (cases f)
  show ?case using Cons.IH
    by (cases i) (simp_all add: f feed_Cons del: feed.simps(2))
qed

lemma feed_nth:
  assumes "i < length fs"
  shows "feed env d fs ! i =
           (branch (after env d (take i fs)) (snd (fs ! i)),
            snd (debounce env (after env d (take i fs)) (fst (fs ! i)) (snd (fs ! i))),
            fst (debounce env (after env d (take i fs)) (fst (fs ! i)) (snd (fs ! i))))"
proof -
  have t: "take (Suc i) fs = take i fs @ [(fst (fs ! i), snd (fs ! i))]"
    using assms by (simp add: take_Suc_conv_app_nth)
  have "feed env d fs ! i = take (Suc i) (feed env d fs) ! i"
    by simp
  also have "\<dots> = feed env d (take (Suc i) fs) ! i"
    by (simp only: take_feed)
  also have "\<dots> = (feed env d (take i fs) @
        [(branch (after env d (take i fs)) (snd (fs ! i)),
            snd (debounce env (after env d (take i fs)) (fst (fs ! i)) (snd (fs ! i))),
            fst (debounce env (after env d (take i fs)) (fst (fs ! i)) (snd (fs ! i))))]) ! i"
    by (simp only: t feed_snoc)
  also have "\<dots> = (branch (after env d (take i fs)) (snd (fs ! i)),
            snd (debounce env (after env d (take i fs)) (fst (fs ! i)) (snd (fs ! i))),
            fst (debounce env (after env d (take i fs)) (fst (fs ! i)) (snd (fs ! i))))"
    using assms by (simp add: nth_append length_feed)
  finally show ?thesis .
qed

lemma count_history_step:
  assumes "count_history d fs"
  shows "count_history (fst (debounce env d light_wp st)) (fs @ [(light_wp, st)])"
proof (cases "state d = st")
  case False
  then show ?thesis
    using assms by (auto simp add: count_history_def debounce_def nth_append)
next
  case True
  have c: "state_count (fst (debounce env d light_wp st)) = state_count d + 1"
    "state (fst (debounce env d light_wp st)) = st"
    using True by (simp_all add: debounce_count debounce_state)
  have "snd ((fs @ [(light_wp, st)]) ! (length (fs @ [(light_wp, st)]) - 1 - k)) = st"
    if k: "k < length (fs @ [(light_wp, st)])" "int k < state_count d + 1" for k
  proof (cases k)
    case 0
    then show ?thesis by simp
  next
    case (Suc j)
    then have j: "j < length fs" "int j < state_count d" using k by simp_all
    then have "snd (fs ! (length fs - 1 - j)) = state d"
      using assms by (simp add: count_history_def)
    moreover have "(fs @ [(light_wp, st)]) ! (length (fs @ [(light_wp, st)]) - 1 - k)
        = fs ! (length fs - 1 - j)"
    proof -
      have "length fs - Suc j < length fs" using j(1) by linarith
      then show ?thesis using Suc by (simp add: nth_append)
    qed
    ultimately show ?thesis using True by simp
  qed
  then show ?thesis
    using assms unfolding count_history_def c by simp
qed

lemma count_history_after:
  "count_history (after env (TLDetector_init env now cfg) fs) fs"
proof (induction fs rule: rev_induct)
  case Nil
  then show ?case by (simp add: count_history_def after_def TLDetector_init_def)
next
  case (snoc f fs)
  obtain w s where f: "f = (w, s)" by (cases f)
  show ?case unfolding f after_snoc using snoc by (rule count_history_step)
qed

lemma last_published_append:
  "last_published (es @ es') =
     (if published es' = [] then last_published es else last (published es'))"
  by (simp add: last_published_def published_append)

lemma debounce_last_wp:
  "last_wp (fst (debounce env d light_wp st)) =
     (if published (snd (debounce env d light_wp st)) = [] then last_wp d
      else last (published (snd (debounce env d light_wp st))))"
  by (simp add: debounce_def Let_def)

lemma last_wp_after:
  "last_wp (after env (TLDetector_init env now cfg) fs) =
     last_published (concat (map (\<lambda>(b, pub, d'). pub)
        (feed env (TLDetector_init env now cfg) fs)))"
proof (induction fs rule: rev_induct)
  case Nil
  then show ?case by (simp add: after_def TLDetector_init_def last_published_def)
next
  case (snoc f fs)
  obtain w s where f: "f = (w, s)" by (cases f)
  show ?case unfolding f after_snoc feed_snoc
    using snoc by (simp add: last_published_append debounce_last_wp)
qed

lemma debounce_change:
  assumes "p \<in> set (published (snd (debounce env d light_wp st)))" "p \<noteq> last_wp d"
  shows "state d = st \<and> 3 \<le> state_count d"
  using assms by (auto simp add: debounce_def Let_def STATE_COUNT_THRESHOLD_def split: if_splits)

lemma change_needs_history:
  assumes i: "i < length fs"
    and f: "feed env (TLDetector_init env now cfg) fs ! i = (b, pub, d')"
    and p: "p \<in> set (published pub)"
    and q: "p \<noteq> last_published (concat (map (\<lambda>(b, pub, d'). pub)
                 (take i (feed env (TLDetector_init env now cfg) fs))))"
  shows "3 \<le> i \<and> snd (fs ! (i - 1)) = snd (fs ! i) \<and> snd (fs ! (i - 2)) = snd (fs ! i) \<and>
         snd (fs ! (i - 3)) = snd (fs ! i)"
proof -
  let ?d = "after env (TLDetector_init env now cfg) (take i fs)"
  have pub: "pub = snd (debounce env ?d (fst (fs ! i)) (snd (fs ! i)))"
    using f feed_nth [OF i, of env "TLDetector_init env now cfg"] by simp
  have "last_wp ?d = last_published (concat (map (\<lambda>(b, pub, d'). pub)
                 (take i (feed env (TLDetector_init env now cfg) fs))))"
    by (simp only: take_feed last_wp_after)
  then have "p \<noteq> last_wp ?d" using q by simp
  with p pub have s: "state ?d = snd (fs ! i)" "3 \<le> state_count ?d"
    using debounce_change [of p env ?d "fst (fs ! i)" "snd (fs ! i)"] by simp_all
  have h: "count_history ?d (take i fs)" by (rule count_history_after)
  have len: "length (take i fs) = i" using i by simp
  from h s(2) have i3: "3 \<le> i" unfolding count_history_def len by linarith
  have "snd (fs ! (i - 1 - k)) = snd (fs ! i)" if "k < 3" for k
  proof -
    have "k < i" "int k < state_count ?d" using that i3 s(2) by simp_all
    then have "snd (take i fs ! (i - 1 - k)) = state ?d"
      using h unfolding count_history_def len by simp
    moreover have "take i fs ! (i - 1 - k) = fs ! (i - 1 - k)"
      using \<open>k < i\<close> by simp
    ultimately show ?thesis using s(1) by simp
  qed
  from this [of 0] this [of 1] this [of 2] i3 show ?thesis
    by (simp add: numeral_2_eq_2 numeral_3_eq_3)
qed

lemma red_green_red_scenario:
  assumes "RED env \<noteq> UNKNOWN env" "g \<noteq> RED env"
  shows "map (\<lambda>(b, pub, d'). (b, pub, state_count d'))
       (feed env (TLDetector_init env now cfg)
          [(42, RED env), (42, g), (42, RED env), (42, RED env), (42, RED env), (42, RED env)])
     = [(1, [], 1), (1, [], 1), (1, [], 1),
        (3, [Publish (- 1)], 2), (3, [Publish (- 1)], 3), (2, [Publish 42], 4)]"
proof -
  have "RED env \<noteq> g" using assms(2) by simp
  then show ?thesis using assms
    by (simp add: feed_Cons debounce_def branch_def TLDetector_init_def
        STATE_COUNT_THRESHOLD_def del: feed.simps(2))
qed

text \<open>
  C2. From the initial detector, on any sequence of accepted frames: a frame that
  publishes a value different from the previously published one (\<open>-1\<close> before the
  first publication) has at least three frames before it, and the three frames before it
  have its raw state. In particular, on RED, GREEN, RED, RED, RED, RED with waypoint 42
  (GREEN any color other than RED, and RED not the initial UNKNOWN) the GREEN frame takes
  branch 1, which resets the counter (it is 1 after the increment), the next RED frame
  resets it again, and 42 is published on the sixth frame only, after three more RED
  frames. Each frame is given with its branch, its publications and the counter after it.
\<close>

theorem no_change_before_stable:
  "(i < length fs \<and> feed env (TLDetector_init env now cfg) fs ! i = (b, pub, d') \<and>
    p \<in> set (published pub) \<and>
    p \<noteq> last_published (concat (map (\<lambda>(b, pub, d'). pub)
            (take i (feed env (TLDetector_init env now cfg) fs))))
    \<longrightarrow> 3 \<le> i \<and> snd (fs ! (i - 1)) = snd (fs ! i) \<and> snd (fs ! (i - 2)) = snd (fs ! i) \<and>
        snd (fs ! (i - 3)) = snd (fs ! i)) \<and>
   (RED env \<noteq> UNKNOWN env \<and> g \<noteq> RED env \<longrightarrow>
      map (\<lambda>(b, pub, d'). (b, pub, state_count d'))
        (feed env (TLDetector_init env now cfg)
          [(42, RED env), (42, g), (42, RED env), (42, RED env), (42, RED env), (42, RED env)])
      = [(1, [], 1), (1, [], 1), (1, [], 1),
         (3, [Publish (- 1)], 2), (3, [Publish (- 1)], 3), (2, [Publish 42], 4)])"
  using change_needs_history [of i fs env now cfg b pub d' p]
    red_green_red_scenario [of env g now cfg]
  by blast

text \<open>The scenario with the color ids of the simulator, at its sixth frame.\<close>

theorem no_change_before_stable_witness:
  "(5::nat) < length [(42, 0), (42, 2), (42, 0), (42, 0), (42, 0), (42::int, 0::int)] \<and>
   fst (snd (feed sim_env (TLDetector_init sim_env 0 sim_config)
      [(42, 0), (42, 2), (42, 0), (42, 0), (42, 0), (42, 0)] ! 5)) = [Publish 42] \<and>
   last_published (concat (map (\<lambda>(b, pub, d'). pub)
      (take 5 (feed sim_env (TLDetector_init sim_env 0 sim_config)
         [(42, 0), (42, 2), (42, 0), (42, 0), (42, 0), (42, 0)])))) = - 1 \<and>
   RED sim_env \<noteq> UNKNOWN sim_env \<and> 2 \<noteq> RED sim_env \<and>
   map (\<lambda>(b, pub, d'). (b, pub, state_count d'))
        (feed sim_env (TLDetector_init sim_env 0 sim_config)
          [(42, 0), (42, 2), (42, 0), (42, 0), (42, 0), (42, 0)])
      = [(1, [], 1), (1, [], 1), (1, [], 1),
         (3, [Publish (- 1)], 2), (3, [Publish (- 1)], 3), (2, [Publish 42], 4)]"
proof -
  let ?fs = "[(42, 0), (42, 2), (42, 0), (42, 0), (42, 0), (42::int, 0::int)]"
  let ?tr = "feed sim_env (TLDetector_init sim_env 0 sim_config) ?fs"
  have r: "RED sim_env = 0" "UNKNOWN sim_env = 4" by (simp_all add: sim_env_def)
  have a: "fst (snd (?tr ! 5)) = [Publish 42]"
    by (simp add: feed_Cons debounce_def branch_def TLDetector_init_def r
        STATE_COUNT_THRESHOLD_def del: feed.simps)
  have b: "last_published (concat (map (\<lambda>(b, pub, d'). pub) (take 5 ?tr))) = - 1"
    by (simp add: feed_Cons debounce_def branch_def TLDetector_init_def r
        STATE_COUNT_THRESHOLD_def last_published_def eval_nat_numeral del: feed.simps(2))
  have c: "?tr ! 5 = (fst (?tr ! 5), fst (snd (?tr ! 5)), snd (snd (?tr ! 5)))"
    by simp
  have d: "42 \<in> set (published (fst (snd (?tr ! 5))))"
    "42 \<noteq> last_published (concat (map (\<lambda>(b, pub, d'). pub) (take 5 ?tr)))"
    by (simp_all only: a b) simp_all
  have e: "(5::nat) < length ?fs" by simp
  from no_change_before_stable [of 5 ?fs sim_env 0 sim_config "fst (?tr ! 5)"
      "fst (snd (?tr ! 5))" "snd (snd (?tr ! 5))" 42 2] c d e
  have "map (\<lambda>(b, pub, d'). (b, pub, state_count d')) ?tr
      = [(1, [], 1), (1, [], 1), (1, [], 1),
         (3, [Publish (- 1)], 2), (3, [Publish (- 1)], 3), (2, [Publish 42], 4)]"
    by (simp add: r)
  then show ?thesis using a b by (simp add: r)
qed

subsection \<open>The selection of a light\<close>

lemma lights_loop_find:
  "lights_loop env d ws x y x_in_front y_in_front ls =
     (case find (light_in_view x y x_in_front y_in_front) ls of
        None \<Rightarrow> ([], Inr None)
      | Some light \<Rightarrow>
          (case light_found env d ws light of
             (evs, Inl e) \<Rightarrow> (evs, Inl e)
           | (evs, Inr r) \<Rightarrow> (evs, Inr (Some r))))"
  by (induction ls) simp_all

lemma light_in_view_iff:
  "light_in_view x y x_in_front y_in_front light \<longleftrightarrow>
     25 < sqrt ((fst light - x)\<^sup>2 + (snd light - y)\<^sup>2) \<and>
     sqrt ((fst light - x)\<^sup>2 + (snd light - y)\<^sup>2) < 100 \<and>
     1 < (x_in_front - x + y_in_front - y) * (fst light - x + snd light - y)"
  by (auto simp add: light_in_view_def Let_def max_look_ahead_distance_def
      min_look_ahead_distance_def)

lemma find_in_view:
  "find (light_in_view x y x_in_front y_in_front) ls = Some light \<Longrightarrow>
   light_in_view x y x_in_front y_in_front light"
  by (auto simp add: find_Some_iff)

text \<open>
  C8, as the code has it. In non-site mode, with a path and a pose stored,
  \<open>process_traffic_lights\<close> takes the first light of \<open>lights\<close>, in the order
  received, that is in view, does for that light what \<open>light_found\<close> does (classify,
  locate the stop line and its waypoint) and looks at no later light; when no light is in
  view it returns \<open>(-1, 4)\<close>. A light is in view when its Euclidean distance to the
  vehicle is strictly between 25 and 100 and the product of the two coordinate-difference
  sums exceeds 1. A light at distance 150 is never the one taken.
\<close>

theorem visibility_selector:
  "(\<not> site d \<and> waypoints d = Some ws \<and> pose d = Some ps \<longrightarrow>
      process_traffic_lights env d =
        (case find (light_in_view (fst (pose_position ps)) (snd (pose_position ps))
                      (fst (pose_position ps) + 1 * cos (euler_yaw env (pose_orientation ps)))
                      (snd (pose_position ps) + 1 * sin (euler_yaw env (pose_orientation ps))))
                   (lights d) of
           None \<Rightarrow> ([], Inr (Some (- 1, 4)))
         | Some light \<Rightarrow>
             (case light_found env d ws light of
                (evs, Inl e) \<Rightarrow> (evs, Inl e)
              | (evs, Inr r) \<Rightarrow> (evs, Inr (Some r))))) \<and>
   (light_in_view x y x_in_front y_in_front light \<longleftrightarrow>
      25 < sqrt ((fst light - x)\<^sup>2 + (snd light - y)\<^sup>2) \<and>
      sqrt ((fst light - x)\<^sup>2 + (snd light - y)\<^sup>2) < 100 \<and>
      1 < (x_in_front - x + y_in_front - y) * (fst light - x + snd light - y)) \<and>
   (sqrt ((fst light - x)\<^sup>2 + (snd light - y)\<^sup>2) = 150 \<longrightarrow>
      find (light_in_view x y x_in_front y_in_front) ls \<noteq> Some light)"
proof (intro conjI impI)
  assume a: "\<not> site d \<and> waypoints d = Some ws \<and> pose d = Some ps"
  let ?x = "fst (pose_position ps)"
  let ?y = "snd (pose_position ps)"
  let ?t = "euler_yaw env (pose_orientation ps)"
  let ?f = "find (light_in_view ?x ?y (?x + 1 * cos ?t) (?y + 1 * sin ?t)) (lights d)"
  have "process_traffic_lights env d =
      (case lights_loop env d ws ?x ?y (?x + 1 * cos ?t) (?y + 1 * sin ?t) (lights d) of
         (evs, Inl e) \<Rightarrow> (evs, Inl e)
       | (evs, Inr None) \<Rightarrow> (evs, Inr (Some (- 1, 4)))
       | (evs, Inr (Some r)) \<Rightarrow> (evs, Inr (Some r)))"
    using a by (simp add: process_traffic_lights_def Let_def)
  also have "\<dots> = (case ?f of
           None \<Rightarrow> ([], Inr (Some (- 1, 4)))
         | Some light \<Rightarrow>
             (case light_found env d ws light of
                (evs, Inl e) \<Rightarrow> (evs, Inl e)
              | (evs, Inr r) \<Rightarrow> (evs, Inr (Some r))))"
    unfolding lights_loop_find
    by (cases ?f) (auto split: prod.split sum.split)
  finally show "process_traffic_lights env d = (case ?f of
           None \<Rightarrow> ([], Inr (Some (- 1, 4)))
         | Some light \<Rightarrow>
             (case light_found env d ws light of
                (evs, Inl e) \<Rightarrow> (evs, Inl e)
              | (evs, Inr r) \<Rightarrow> (evs, Inr (Some r))))" .
next
  show "light_in_view x y x_in_front y_in_front light \<longleftrightarrow>
      25 < sqrt ((fst light - x)\<^sup>2 + (snd light - y)\<^sup>2) \<and>
      sqrt ((fst light - x)\<^sup>2 + (snd light - y)\<^sup>2) < 100 \<and>
      1 < (x_in_front - x + y_in_front - y) * (fst light - x + snd light - y)"
    by (rule light_in_view_iff)
next
  assume "sqrt ((fst light - x)\<^sup>2 + (snd light - y)\<^sup>2) = 150"
  then have "\<not> light_in_view x y x_in_front y_in_front light"
    by (simp add: light_in_view_iff)
  then show "find (light_in_view x y x_in_front y_in_front) ls \<noteq> Some light"
    using find_in_view by blast
qed

lemma sqrt_100: "sqrt 100 = 10"
  by (rule real_sqrt_unique) simp_all
lemma sqrt_2500: "sqrt 2500 = 50"
  by (rule real_sqrt_unique) simp_all
lemma sqrt_10000: "sqrt 10000 = 100"
  by (rule real_sqrt_unique) simp_all
lemma sqrt_22500: "sqrt 22500 = 150"
  by (rule real_sqrt_unique) simp_all

text \<open>
  C8 as stated has the closed interval \<open>[25, 100]\<close>. A vehicle at the origin heading
  along the x axis and a single light at \<open>(100, 0)\<close>: the distance is 100, the product
  is 100, and the light is not taken.
\<close>

theorem closed_interval_counterexample:
  "sqrt ((100 - 0)\<^sup>2 + (0 - 0)\<^sup>2) = (100::real) \<and> (25::real) \<le> 100 \<and> (100::real) \<le> 100 \<and>
   (1::real) < ((0 + 1 * cos 0) - 0 + (0 + 1 * sin 0) - 0) * (100 - 0 + 0 - 0) \<and>
   process_traffic_lights sim_env (sim_detector [(100, 0)]) = ([], Inr (Some (- 1, 4)))"
  by (simp add: sqrt_10000 process_traffic_lights_def sim_detector_def traffic_cb_def
      pose_cb_def waypoints_cb_def TLDetector_init_def sim_config_def origin_pose_def
      sim_env_def light_in_view_def max_look_ahead_distance_def min_look_ahead_distance_def)

text \<open>
  Lights at distances 150, 50 and 60 ahead: the second is taken. Lights at distance 150
  ahead and 50 behind: none is taken.
\<close>

theorem visibility_selector_witness:
  "process_traffic_lights sim_env (sim_detector [(150, 0), (50, 0), (60, 0)])
     = ([Classify False], Inr (Some (0, 0))) \<and>
   process_traffic_lights sim_env (sim_detector [(150, 0), (- 50, 0)])
     = ([], Inr (Some (- 1, 4))) \<and>
   sqrt ((150 - 0)\<^sup>2 + (0 - 0)\<^sup>2) = (150 :: real)"
proof -
  let ?d = "sim_detector [(150, 0), (50, 0), (60, 0)]"
  let ?e = "sim_detector [(150, 0), (- 50, 0)]"
  have d: "\<not> site ?d \<and> waypoints ?d = Some [(0, 0)] \<and> pose ?d = Some origin_pose"
    "\<not> site ?e \<and> waypoints ?e = Some [(0, 0)] \<and> pose ?e = Some origin_pose"
    by (simp_all add: sim_detector_def traffic_cb_def pose_cb_def waypoints_cb_def
        TLDetector_init_def sim_config_def)
  have l: "lights ?d = [(150, 0), (50, 0), (60, 0)]" "lights ?e = [(150, 0), (- 50, 0)]"
    by (simp_all add: sim_detector_def traffic_cb_def)
  have v: "\<not> light_in_view 0 0 1 0 (150, 0)" "light_in_view 0 0 1 0 (50, 0)"
     "\<not> light_in_view 0 0 1 0 (- 50, 0)"
    by (simp_all add: light_in_view_def sqrt_22500 sqrt_2500 max_look_ahead_distance_def
        min_look_ahead_distance_def)
  have f: "light_found sim_env ?d [(0, 0)] (50, 0) = ([Classify False], Inr (0, 0))"
    by (simp add: light_found_def get_light_state_def sim_detector_def traffic_cb_def
        pose_cb_def waypoints_cb_def TLDetector_init_def sim_config_def sim_env_def
        closest_index_def sqrt_100)
  have y: "euler_yaw sim_env (pose_orientation origin_pose) = 0"
    "pose_position origin_pose = (0, 0)"
    by (simp_all add: sim_env_def origin_pose_def)
  from visibility_selector [of ?d "[(0, 0)]" origin_pose sim_env 0 0 1 0 "(150, 0)" "[]"]
       visibility_selector [of ?e "[(0, 0)]" origin_pose sim_env 0 0 1 0 "(150, 0)" "[]"]
       d
  show ?thesis
    by (simp add: l v f y sqrt_22500)
qed

subsection \<open>Acceptance of frames and calls of the classifier\<close>

lemma classifications_append:
  "classifications (es @ es') = classifications es @ classifications es'"
  by (induction es rule: classifications.induct) simp_all

lemma debounce_classifications: "classifications (snd (debounce env d light_wp st)) = []"
  by (simp add: debounce_def Let_def)

lemma get_light_state_classifications:
  "has_image d \<Longrightarrow> camera_image d = Some img \<Longrightarrow>
   classifications (fst (get_light_state env d)) = [processing_image d]"
  by (simp add: get_light_state_def)

lemma light_found_classifications:
  "has_image d \<Longrightarrow> camera_image d = Some img \<Longrightarrow>
   classifications (fst (light_found env d ws light)) = [processing_image d]"
  using get_light_state_classifications [of d img env]
  by (cases "get_light_state env d") (simp add: light_found_def split: sum.split)

lemma process_traffic_lights_classifications:
  assumes "has_image d" "camera_image d = Some img"
  shows "classifications (fst (process_traffic_lights env d)) =
           (if light_selected env d then [processing_image d] else [])"
proof (cases "waypoints d")
  case None
  then show ?thesis by (simp add: process_traffic_lights_def light_selected_def)
next
  case (Some ws)
  show ?thesis
  proof (cases "site d")
    case True
    show ?thesis
      using Some True get_light_state_classifications [OF assms, of env]
      by (cases "get_light_state env d")
         (simp add: process_traffic_lights_def light_selected_def split: sum.split)
  next
    case False
    show ?thesis
    proof (cases "pose d")
      case None
      then show ?thesis using Some False
        by (simp add: process_traffic_lights_def light_selected_def)
    next
      case ps: (Some ps)
      let ?x = "fst (pose_position ps)"
      let ?y = "snd (pose_position ps)"
      let ?t = "euler_yaw env (pose_orientation ps)"
      let ?f = "find (light_in_view ?x ?y (?x + 1 * cos ?t) (?y + 1 * sin ?t)) (lights d)"
      have sel: "light_selected env d = (?f \<noteq> None)"
        using Some False ps by (simp add: light_selected_def)
      have p: "process_traffic_lights env d =
          (case ?f of
             None \<Rightarrow> ([], Inr (Some (- 1, 4)))
           | Some light \<Rightarrow>
               (case light_found env d ws light of
                  (evs, Inl e) \<Rightarrow> (evs, Inl e)
                | (evs, Inr r) \<Rightarrow> (evs, Inr (Some r))))"
        using Some False ps lights_loop_find [of env d ws ?x ?y]
        by (simp add: process_traffic_lights_def Let_def split: option.split sum.split prod.split)
      show ?thesis
      proof (cases ?f)
        case None
        then show ?thesis using p sel by simp
      next
        case (Some light)
        then show ?thesis
          using p sel light_found_classifications [OF assms, of env ws light]
          by (cases "light_found env d ws light") (simp split: sum.split)
      qed
    qed
  qed
qed

lemma image_cb_classifications:
  "classifications (fst (snd (image_cb env d msg now_time))) =
     (if accepts d now_time \<and>
         light_selected env
           (d\<lparr>last_image_time := now_time, has_image := True, camera_image := Some msg\<rparr>)
      then [False] else [])"
proof (cases "accepts d now_time")
  case False
  then show ?thesis by (simp add: image_cb_def)
next
  case True
  let ?d1 = "d\<lparr>last_image_time := now_time, has_image := True, camera_image := Some msg\<rparr>"
  have b: "processing_image ?d1 = False" using True by (simp add: accepts_def)
  have c: "classifications (fst (process_traffic_lights env ?d1)) =
           (if light_selected env ?d1 then [False] else [])"
    using process_traffic_lights_classifications [of ?d1 msg env] b by simp
  show ?thesis
    using True c
    by (cases "process_traffic_lights env ?d1")
       (simp add: image_cb_def Let_def classifications_append debounce_classifications
          case_prod_unfold split: sum.split option.split)
qed

lemma image_cb_accepted_time:
  "accepts d now_time \<Longrightarrow>
   last_image_time (fst (image_cb env d msg now_time)) = now_time \<and>
   camera_image (fst (image_cb env d msg now_time)) = Some msg"
  by (cases "process_traffic_lights env
         (d\<lparr>last_image_time := now_time, has_image := True, camera_image := Some msg\<rparr>)")
     (simp add: image_cb_def Let_def debounce_def case_prod_unfold
        split: sum.split option.split)

text \<open>
  C6, as far as the code does it by design. A frame is accepted exactly when
  \<open>processing_image\<close> is false and more than 0.1 has elapsed since
  \<open>last_image_time\<close>, hence only if at least 0.1 has elapsed; otherwise it is
  dropped: the detector is unchanged, nothing is done and nothing is raised. An accepted
  frame and its arrival time are recorded. The classifier is called exactly once on an
  accepted frame for which a light is selected, and is not called on any other frame.
\<close>

theorem classifier_adapter:
  "(accepts d now_time \<longleftrightarrow>
      processing_image d = False \<and> 0.1 < now_time - last_image_time d) \<and>
   (accepts d now_time \<longrightarrow>
      0.1 \<le> now_time - last_image_time d \<and>
      last_image_time (fst (image_cb env d msg now_time)) = now_time \<and>
      camera_image (fst (image_cb env d msg now_time)) = Some msg) \<and>
   (\<not> (processing_image d = False \<and> 0.1 \<le> now_time - last_image_time d) \<longrightarrow>
      \<not> accepts d now_time) \<and>
   (\<not> accepts d now_time \<longrightarrow> image_cb env d msg now_time = (d, [], None)) \<and>
   length (classifications (fst (snd (image_cb env d msg now_time)))) =
     (if accepts d now_time \<and>
         light_selected env
           (d\<lparr>last_image_time := now_time, has_image := True, camera_image := Some msg\<rparr>)
      then 1 else 0)"
proof -
  have a: "accepts d now_time \<longleftrightarrow>
      processing_image d = False \<and> 0.1 < now_time - last_image_time d"
    by (auto simp add: accepts_def)
  then have b: "accepts d now_time \<longrightarrow> 0.1 \<le> now_time - last_image_time d"
    "\<not> (processing_image d = False \<and> 0.1 \<le> now_time - last_image_time d) \<longrightarrow>
      \<not> accepts d now_time"
    by auto
  have c: "\<not> accepts d now_time \<longrightarrow> image_cb env d msg now_time = (d, [], None)"
    by (simp add: image_cb_def)
  have e: "length (classifications (fst (snd (image_cb env d msg now_time)))) =
     (if accepts d now_time \<and>
         light_selected env
           (d\<lparr>last_image_time := now_time, has_image := True, camera_image := Some msg\<rparr>)
      then 1 else 0)"
    by (simp add: image_cb_classifications)
  show ?thesis
    using a b c e image_cb_accepted_time [of d now_time env msg] by blast
qed

text \<open>
  C6 as stated has the classifier called on every accepted frame. In non-site mode with
  no light in the registry, a frame arriving at clock 2 after one accepted at clock 1 is
  accepted and publishes \<open>-1\<close>, and the classifier is not called.
\<close>

theorem classifier_adapter_counterexample:
  "accepts (sim_detector []) 2 \<and>
   snd (image_cb sim_env (sim_detector []) 0 2) = ([Publish (- 1)], None)"
  by (simp add: image_cb_def accepts_def sim_detector_def traffic_cb_def pose_cb_def
      waypoints_cb_def TLDetector_init_def sim_config_def origin_pose_def
      process_traffic_lights_def sim_env_def debounce_def STATE_COUNT_THRESHOLD_def)

text \<open>
  Site mode, last accepted time 0: a frame at clock 1 is accepted and classified once;
  frames at 0.05 and at exactly 0.1 are dropped.
\<close>

theorem classifier_adapter_witness:
  "accepts (waypoints_cb (TLDetector_init sim_env 0 site_config) [(0, 0)]) 1 \<and>
   length (classifications (fst (snd (image_cb sim_env
       (waypoints_cb (TLDetector_init sim_env 0 site_config) [(0, 0)]) 0 1)))) = 1 \<and>
   last_image_time (fst (image_cb sim_env
       (waypoints_cb (TLDetector_init sim_env 0 site_config) [(0, 0)]) 0 1)) = 1 \<and>
   \<not> accepts (waypoints_cb (TLDetector_init sim_env 0 site_config) [(0, 0)]) 0.05 \<and>
   image_cb sim_env (waypoints_cb (TLDetector_init sim_env 0 site_config) [(0, 0)]) 0 0.05
     = (waypoints_cb (TLDetector_init sim_env 0 site_config) [(0, 0)], [], None) \<and>
   image_cb sim_env (waypoints_cb (TLDetector_init sim_env 0 site_config) [(0, 0)]) 0 0.1
     = (waypoints_cb (TLDetector_init sim_env 0 site_config) [(0, 0)], [], None)"
proof -
  let ?d = "waypoints_cb (TLDetector_init sim_env 0 site_config) [(0, 0)] :: int TLDetector"
  have a: "processing_image ?d = False" "last_image_time ?d = 0"
    by (simp_all add: waypoints_cb_def TLDetector_init_def)
  have s: "light_selected sim_env
             (?d\<lparr>last_image_time := 1, has_image := True, camera_image := Some 0\<rparr>)"
    by (simp add: light_selected_def waypoints_cb_def TLDetector_init_def site_config_def
        closest_index_def)
  from classifier_adapter [of ?d 1 sim_env 0] classifier_adapter [of ?d "0.05" sim_env 0]
    classifier_adapter [of ?d "0.1" sim_env 0] s
  show ?thesis by (simp add: a)
qed

subsection \<open>Replaying a sequence of messages\<close>

lemma get_light_state_cong:
  assumes "camera_image d = Some img"
    "get_classification env' img = get_classification env img"
  shows "get_light_state env' d = get_light_state env d"
  using assms by (simp add: get_light_state_def)

lemma light_found_cong:
  assumes "camera_image d = Some img"
    "get_classification env' img = get_classification env img"
  shows "light_found env' d ws light = light_found env d ws light"
  using get_light_state_cong [OF assms] by (simp add: light_found_def)

lemma lights_loop_cong:
  assumes "camera_image d = Some img"
    "get_classification env' img = get_classification env img"
  shows "lights_loop env' d ws x y x_in_front y_in_front ls =
         lights_loop env d ws x y x_in_front y_in_front ls"
  using light_found_cong [OF assms] by (induction ls) simp_all

lemma process_traffic_lights_cong:
  assumes "camera_image d = Some img"
    "get_classification env' img = get_classification env img"
    "euler_yaw env' = euler_yaw env"
  shows "process_traffic_lights env' d = process_traffic_lights env d"
  unfolding process_traffic_lights_def get_light_state_cong [OF assms(1,2)]
    lights_loop_cong [OF assms(1,2)] assms(3)
  by (rule refl)

lemma debounce_cong: "RED env' = RED env \<Longrightarrow> debounce env' d light_wp st = debounce env d light_wp st"
  by (simp add: debounce_def)

lemma image_cb_cong:
  assumes "get_classification env' img = get_classification env img"
    "euler_yaw env' = euler_yaw env" "RED env' = RED env"
  shows "image_cb env' d img now_time = image_cb env d img now_time"
proof -
  let ?d1 = "d\<lparr>last_image_time := now_time, has_image := True, camera_image := Some img\<rparr>"
  have "process_traffic_lights env' ?d1 = process_traffic_lights env ?d1"
    by (rule process_traffic_lights_cong [of _ img]) (simp_all add: assms)
  then show ?thesis
    by (simp add: image_cb_def debounce_cong [OF assms(3)])
qed

lemma run_cong:
  assumes "\<forall>now_time img. Image now_time img \<in> set ms \<longrightarrow>
             get_classification env' img = get_classification env img"
    "euler_yaw env' = euler_yaw env" "RED env' = RED env"
  shows "run env' d ms = run env d ms"
  using assms(1)
proof (induction ms arbitrary: d)
  case Nil
  then show ?case by simp
next
  case (Cons m ms)
  have "dispatch env' d m = dispatch env d m"
  proof (cases m)
    case (Image now_time img)
    then have "get_classification env' img = get_classification env img"
      using Cons.prems by simp
    then have "image_cb env' d img now_time = image_cb env d img now_time"
      using assms(2,3) by (rule image_cb_cong)
    then show ?thesis using Image by simp
  qed simp_all
  moreover have "run env' d1 ms = run env d1 ms" for d1
    using Cons.prems by (intro Cons.IH) simp
  ultimately show ?case by simp
qed



text \<open>
  The clock reading stored by \<open>__init__\<close> matters only through the frames it lets
  in: two detectors that differ in \<open>last_image_time\<close> alone do the same on every
  sequence of messages whose frames both accept or both drop.
\<close>

lemma accepts_clock:
  "accepts (d\<lparr>last_image_time := t\<rparr>) now_time \<longleftrightarrow>
     processing_image d = False \<and> now_time > t + 0.1"
  by (simp add: accepts_def)

lemma image_cb_clock_accepted:
  assumes "accepts d now_time" "accepts (d\<lparr>last_image_time := t\<rparr>) now_time"
  shows "image_cb env (d\<lparr>last_image_time := t\<rparr>) img now_time = image_cb env d img now_time"
  using assms by (simp add: image_cb_def)

lemma image_cb_dropped:
  "\<not> accepts d now_time \<Longrightarrow> image_cb env d img now_time = (d, [], None)"
  by (simp add: image_cb_def)

lemma run_clock:
  assumes "\<forall>now_time img. Image now_time img \<in> set ms \<longrightarrow>
             (now_time > t + 0.1 \<longleftrightarrow> now_time > last_image_time d + 0.1)"
  shows "snd (run env (d\<lparr>last_image_time := t\<rparr>) ms) = snd (run env d ms)"
  using assms
proof (induction ms arbitrary: d)
  case Nil
  then show ?case by simp
next
  case (Cons m ms)
  have rest: "\<forall>now_time img. Image now_time img \<in> set ms \<longrightarrow>
             (now_time > t + 0.1 \<longleftrightarrow> now_time > last_image_time d + 0.1)"
    using Cons.prems by simp
  show ?case
  proof (cases m)
    case (PoseStamped p)
    have c: "pose_cb (d\<lparr>last_image_time := t\<rparr>) p = (pose_cb d p)\<lparr>last_image_time := t\<rparr>"
      "last_image_time (pose_cb d p) = last_image_time d"
      by (simp_all add: pose_cb_def)
    have "snd (run env ((pose_cb d p)\<lparr>last_image_time := t\<rparr>) ms)
        = snd (run env (pose_cb d p) ms)"
      using rest by (intro Cons.IH) (simp add: c(2))
    then show ?thesis using PoseStamped by (simp add: c(1) case_prod_unfold)
  next
    case (Lane wps)
    have c: "waypoints_cb (d\<lparr>last_image_time := t\<rparr>) wps = (waypoints_cb d wps)\<lparr>last_image_time := t\<rparr>"
      "last_image_time (waypoints_cb d wps) = last_image_time d"
      by (simp_all add: waypoints_cb_def)
    have "snd (run env ((waypoints_cb d wps)\<lparr>last_image_time := t\<rparr>) ms)
        = snd (run env (waypoints_cb d wps) ms)"
      using rest by (intro Cons.IH) (simp add: c(2))
    then show ?thesis using Lane by (simp add: c(1) case_prod_unfold)
  next
    case (TrafficLightArray ls)
    have c: "traffic_cb (d\<lparr>last_image_time := t\<rparr>) ls = (traffic_cb d ls)\<lparr>last_image_time := t\<rparr>"
      "last_image_time (traffic_cb d ls) = last_image_time d"
      by (simp_all add: traffic_cb_def)
    have "snd (run env ((traffic_cb d ls)\<lparr>last_image_time := t\<rparr>) ms)
        = snd (run env (traffic_cb d ls) ms)"
      using rest by (intro Cons.IH) (simp add: c(2))
    then show ?thesis using TrafficLightArray by (simp add: c(1) case_prod_unfold)
  next
    case (Image now_time img)
    then have same: "now_time > t + 0.1 \<longleftrightarrow> now_time > last_image_time d + 0.1"
      using Cons.prems by simp
    show ?thesis
    proof (cases "accepts d now_time")
      case True
      then have "accepts (d\<lparr>last_image_time := t\<rparr>) now_time"
        using same by (simp add: accepts_def)
      with True have "image_cb env (d\<lparr>last_image_time := t\<rparr>) img now_time
          = image_cb env d img now_time"
        by (rule image_cb_clock_accepted)
      then show ?thesis using Image by simp
    next
      case False
      then have "\<not> accepts (d\<lparr>last_image_time := t\<rparr>) now_time"
        using same by (simp add: accepts_def)
      then have "image_cb env (d\<lparr>last_image_time := t\<rparr>) img now_time
          = (d\<lparr>last_image_time := t\<rparr>, [], None)"
        by (rule image_cb_dropped)
      moreover have "image_cb env d img now_time = (d, [], None)"
        using False by (rule image_cb_dropped)
      moreover have "snd (run env (d\<lparr>last_image_time := t\<rparr>) ms) = snd (run env d ms)"
        using rest by (rule Cons.IH)
      ultimately show ?thesis using Image by (simp add: case_prod_unfold)
    qed
  qed
qed

text \<open>
  C9, as the code has it. Two runs from freshly constructed detectors on the same sequence
  of pose, path, light and frame messages with their arrival times, with the same
  configuration, color constants and yaw function, and with classifiers that give the
  same result on every frame of the sequence, publish the same sequence of values,
  provided the two clock readings taken at construction let the same frames in: each
  frame arrives more than 0.1 after both readings or after neither.
\<close>

theorem replay_same_published:
  assumes "\<forall>now_time img. Image now_time img \<in> set ms \<longrightarrow>
             get_classification env' img = get_classification env img"
    and "\<forall>now_time img. Image now_time img \<in> set ms \<longrightarrow>
             (now_time > t0' + 0.1 \<longleftrightarrow> now_time > t0 + 0.1)"
    and "euler_yaw env' = euler_yaw env" "RED env' = RED env" "UNKNOWN env' = UNKNOWN env"
  shows "published (snd (run env' (TLDetector_init env' t0' cfg) ms)) =
         published (snd (run env (TLDetector_init env t0 cfg) ms))"
proof -
  let ?d = "TLDetector_init env t0 cfg :: 'a TLDetector"
  have i: "(TLDetector_init env' t0' cfg :: 'a TLDetector) = ?d\<lparr>last_image_time := t0'\<rparr>"
    using assms(5) by (simp add: TLDetector_init_def)
  have "last_image_time ?d = t0" by (simp add: TLDetector_init_def)
  then have "snd (run env (?d\<lparr>last_image_time := t0'\<rparr>) ms) = snd (run env ?d ms)"
    using assms(2) by (intro run_clock) simp
  then show ?thesis by (simp only: i run_cong [OF assms(1,3,4)])
qed

text \<open>
  C9 as stated does not name the clock reading taken at construction among the inputs.
  The same messages (site mode, the path \<open>[(0, 0)]\<close>, RED frames at clocks 1 to 5) are
  answered with \<open>-1, -1, 0, 0\<close> by a detector constructed at clock 0 and with
  \<open>-1, -1, 0\<close> by one constructed at clock 0.95, which drops the frame at clock 1.
\<close>

theorem replay_construction_clock_counterexample:
  "published (snd (run sim_env (TLDetector_init sim_env 0 site_config)
       [Lane [(0, 0)], Image 1 0, Image 2 0, Image 3 0, Image 4 0, Image 5 0])) = [- 1, - 1, 0, 0] \<and>
   published (snd (run sim_env (TLDetector_init sim_env 0.95 site_config)
       [Lane [(0, 0)], Image 1 0, Image 2 0, Image 3 0, Image 4 0, Image 5 0])) = [- 1, - 1, 0]"
  by (simp add: image_cb_def accepts_def TLDetector_init_def site_config_def
      process_traffic_lights_def waypoints_cb_def closest_index_def get_light_state_def
      sim_env_def debounce_def STATE_COUNT_THRESHOLD_def)

text \<open>
  Two classifiers that agree on the frame 0 and differ elsewhere, detectors constructed at
  clocks 0.02 and 0: both drop the frame at 0.05 and accept the five frames that follow.
\<close>

theorem replay_same_published_witness:
  "published (snd (run sim_env2 (TLDetector_init sim_env2 0.02 site_config)
       [Lane [(0, 0)], Image 0.05 0, Image 1 0, Image 2 0, Image 3 0, Image 4 0, Image 5 0]))
     = [- 1, - 1, 0, 0] \<and>
   published (snd (run sim_env (TLDetector_init sim_env 0 site_config)
       [Lane [(0, 0)], Image 0.05 0, Image 1 0, Image 2 0, Image 3 0, Image 4 0, Image 5 0]))
     = [- 1, - 1, 0, 0]"
proof -
  let ?ms = "[Lane [(0, 0)], Image 0.05 0, Image 1 0, Image 2 0, Image 3 0, Image 4 0, Image 5 0]
            :: int msg list"
  have a: "\<forall>now_time img. Image now_time img \<in> set ?ms \<longrightarrow>
             get_classification sim_env2 img = get_classification sim_env img"
    by (auto simp add: sim_env_def sim_env2_def)
  have t: "\<forall>now_time img. Image now_time img \<in> set ?ms \<longrightarrow>
             (now_time > 0.02 + 0.1 \<longleftrightarrow> now_time > 0 + 0.1)"
    by auto
  have b: "euler_yaw sim_env2 = euler_yaw sim_env" "RED sim_env2 = RED sim_env"
    "UNKNOWN sim_env2 = UNKNOWN sim_env"
    by (simp_all add: sim_env_def sim_env2_def)
  have c: "published (snd (run sim_env (TLDetector_init sim_env 0 site_config) ?ms))
      = [- 1, - 1, 0, 0]"
    by (simp add: image_cb_def accepts_def TLDetector_init_def site_config_def
      process_traffic_lights_def waypoints_cb_def closest_index_def get_light_state_def
      sim_env_def debounce_def STATE_COUNT_THRESHOLD_def)
  from replay_same_published [OF a t b, of site_config] c show ?thesis by simp
qed

end
